theory Spec2Isabelle
  imports Main "HOL-Library.List_Lexorder" "HOL-Library.Log_Nat"
begin

section \<open>Common conventions\<close>

text \<open>
  Every demo of the repository is a separate program that writes lines to standard
  output. The console is modelled as the list of the lines written, in order; a line is
  what the source streams to \<open>std::cout\<close> up to a \<open>"\n"\<close> or a \<open>std::endl\<close>. A raw
  pointer or a smart pointer is an address (a natural number) wrapped in \<open>option\<close>,
  with \<open>None\<close> for \<open>nullptr\<close>, wherever the identity of the object matters.
\<close>

type_synonym addr = nat
type_synonym console = "string list"

section \<open>Observer (observer.cpp)\<close>

subsection \<open>The two library calls of the erase-remove idiom\<close>

text \<open>
  \<open>std::find(first, last, value)\<close> on a vector, with iterators as indices: the index of
  the first element from \<open>i\<close> on that equals \<open>v\<close>, or the length (the end iterator).
\<close>

function std_find :: "'a \<Rightarrow> nat \<Rightarrow> 'a list \<Rightarrow> nat" where
  "std_find v i xs =
     (if i < length xs then (if xs ! i = v then i else std_find v (Suc i) xs) else length xs)"
  by pat_completeness auto
termination
  by (relation "measure (\<lambda>(v, i, xs). length xs - i)") auto

declare std_find.simps [simp del]

text \<open>
  The loop of \<open>std::remove\<close>: \<open>r\<close> is the read iterator, \<open>w\<close> the write iterator
  (\<open>first\<close> in the library's text). An element different from \<open>v\<close> is moved down to
  \<open>w\<close>; the loop returns the final write iterator and the vector as it then stands.
\<close>

function std_remove_loop :: "'a \<Rightarrow> nat \<Rightarrow> nat \<Rightarrow> 'a list \<Rightarrow> nat \<times> 'a list" where
  "std_remove_loop v w r xs =
     (if r < length xs
      then (if xs ! r \<noteq> v then std_remove_loop v (Suc w) (Suc r) (xs[w := xs ! r])
            else std_remove_loop v w (Suc r) xs)
      else (w, xs))"
  by pat_completeness auto
termination
  by (relation "measure (\<lambda>(v, w, r, xs). length xs - r)") auto

declare std_remove_loop.simps [simp del]

text \<open>
  \<open>std::remove(begin, end, value)\<close>: find the first match; if there is one, compact the
  rest of the range over it. The result is the new logical end and the vector.
\<close>

definition std_remove :: "'a list \<Rightarrow> 'a \<Rightarrow> nat \<times> 'a list" where
  "std_remove xs v =
     (let first_it = std_find v 0 xs
      in if first_it \<noteq> length xs then std_remove_loop v first_it (Suc first_it) xs
         else (first_it, xs))"

text \<open>\<open>vector::erase(first, last)\<close> drops the elements of the index range.\<close>

definition vector_erase :: "'a list \<Rightarrow> nat \<Rightarrow> nat \<Rightarrow> 'a list" where
  "vector_erase xs first_it last_it = take first_it xs @ drop last_it xs"

subsection \<open>NewsAgency\<close>

text \<open>
  The subject holds the observers as non-owning pointers, compared by address, and the
  latest news. A fresh agency has no observer and the empty string.
\<close>

record NewsAgency =
  observers :: "addr list"
  latestNews :: string

definition NewsAgency_new :: NewsAgency where
  "NewsAgency_new = \<lparr>observers = [], latestNews = ''''\<rparr>"

definition attach :: "NewsAgency \<Rightarrow> addr \<Rightarrow> NewsAgency" where
  "attach a observer = a\<lparr>observers := observers a @ [observer]\<rparr>"

definition detach :: "NewsAgency \<Rightarrow> addr \<Rightarrow> NewsAgency" where
  "detach a observer =
     (let (new_end, v) = std_remove (observers a) observer
      in a\<lparr>observers := vector_erase v new_end (length v)\<rparr>)"

text \<open>
  \<open>notify\<close> calls the virtual \<open>update\<close> of every observer of the list, front to back, with
  the latest news. The model returns the calls made, as pairs of receiver and argument.
\<close>

definition notify :: "NewsAgency \<Rightarrow> (addr \<times> string) list" where
  "notify a = map (\<lambda>observer. (observer, latestNews a)) (observers a)"

definition setNews :: "NewsAgency \<Rightarrow> string \<Rightarrow> NewsAgency \<times> (addr \<times> string) list" where
  "setNews a news = (let a' = a\<lparr>latestNews := news\<rparr> in (a', notify a'))"

text \<open>
  The one concrete observer: a subscriber prints its name and the message. The objects
  live in the caller's frame; \<open>names\<close> gives the name of the subscriber at an address.
\<close>

definition Subscriber_update :: "string \<Rightarrow> string \<Rightarrow> string" where
  "Subscriber_update name message = name @ '' received update: '' @ message"

definition deliver :: "(addr \<Rightarrow> string) \<Rightarrow> (addr \<times> string) list \<Rightarrow> console" where
  "deliver names calls = map (\<lambda>(observer, message). Subscriber_update (names observer) message) calls"

text \<open>The demo's \<open>main\<close>: alice, bob and charlie at the addresses 1, 2 and 3.\<close>

definition observer_names :: "addr \<Rightarrow> string" where
  "observer_names p = (if p = 1 then ''Alice'' else if p = 2 then ''Bob'' else ''Charlie'')"

definition observer_main :: console where
  "observer_main =
     (let agency = NewsAgency_new;
          agency = attach agency 1;
          agency = attach agency 2;
          (agency, calls1) = setNews agency ''Breaking News: Observer Pattern Implemented!'';
          agency = detach agency 2;
          (agency, calls2) = setNews agency ''Update: Observer Pattern is Awesome!''
      in deliver observer_names calls1 @ deliver observer_names calls2)"

section \<open>Strategy (strategy.cpp)\<close>

datatype RouteStrategy = ShortestRoute | FastestRoute | ScenicRoute

fun calculateRoute :: "RouteStrategy \<Rightarrow> console" where
  "calculateRoute ShortestRoute = [''Calculating the shortest route.'']"
| "calculateRoute FastestRoute = [''Calculating the fastest route.'']"
| "calculateRoute ScenicRoute = [''Calculating the scenic route.'']"

text \<open>
  The navigator's only member is the shared pointer to its strategy; a default-constructed
  \<open>shared_ptr\<close> is null. The strategies have no state, so the pointer is modelled by the
  variant it points to.
\<close>

datatype GPSNavigator = GPSNavigator "RouteStrategy option"

definition GPSNavigator_new :: GPSNavigator where
  "GPSNavigator_new = GPSNavigator None"

fun setStrategy :: "GPSNavigator \<Rightarrow> RouteStrategy option \<Rightarrow> GPSNavigator" where
  "setStrategy (GPSNavigator strategy) newStrategy = GPSNavigator newStrategy"

text \<open>\<open>navigate\<close> is \<open>const\<close>: it returns the lines it prints and leaves the navigator alone.\<close>

fun navigate :: "GPSNavigator \<Rightarrow> console" where
  "navigate (GPSNavigator (Some strategy)) = calculateRoute strategy"
| "navigate (GPSNavigator None) = [''No strategy set.'']"

definition strategy_main :: console where
  "strategy_main =
     (let navigator = GPSNavigator_new;
          navigator = setStrategy navigator (Some ShortestRoute);
          out1 = navigate navigator;
          navigator = setStrategy navigator (Some FastestRoute);
          out2 = navigate navigator;
          navigator = setStrategy navigator (Some ScenicRoute);
          out3 = navigate navigator
      in out1 @ out2 @ out3)"

section \<open>Command (command.cpp)\<close>

text \<open>The receiver has no member; its two operations print a line each.\<close>

definition turnOn :: console where
  "turnOn = [''Light is ON'']"

definition turnOff :: console where
  "turnOff = [''Light is OFF'']"

text \<open>A command holds the address of its light.\<close>

datatype Command = LightOnCommand addr | LightOffCommand addr

fun execute :: "Command \<Rightarrow> console" where
  "execute (LightOnCommand light) = turnOn"
| "execute (LightOffCommand light) = turnOff"

fun undo :: "Command \<Rightarrow> console" where
  "undo (LightOnCommand light) = turnOff"
| "undo (LightOffCommand light) = turnOn"

datatype RemoteControl = RemoteControl "Command option"

definition RemoteControl_new :: RemoteControl where
  "RemoteControl_new = RemoteControl None"

fun setCommand :: "RemoteControl \<Rightarrow> Command option \<Rightarrow> RemoteControl" where
  "setCommand (RemoteControl command) cmd = RemoteControl cmd"

text \<open>
  Neither \<open>pressButton\<close> nor \<open>pressUndo\<close> assigns a member, and neither has an \<open>else\<close>
  branch: with a null command the body is skipped. The model returns the remote as it
  is left, and the lines printed.
\<close>

fun pressButton :: "RemoteControl \<Rightarrow> RemoteControl \<times> console" where
  "pressButton (RemoteControl (Some command)) = (RemoteControl (Some command), execute command)"
| "pressButton (RemoteControl None) = (RemoteControl None, [])"

fun pressUndo :: "RemoteControl \<Rightarrow> RemoteControl \<times> console" where
  "pressUndo (RemoteControl (Some command)) = (RemoteControl (Some command), undo command)"
| "pressUndo (RemoteControl None) = (RemoteControl None, [])"

definition command_main :: console where
  "command_main =
     (let livingRoomLight = 1;
          lightOn = LightOnCommand livingRoomLight;
          lightOff = LightOffCommand livingRoomLight;
          remote = RemoteControl_new;
          remote = setCommand remote (Some lightOn);
          (remote, out1) = pressButton remote;
          (remote, out2) = pressUndo remote;
          remote = setCommand remote (Some lightOff);
          (remote, out3) = pressButton remote;
          (remote, out4) = pressUndo remote
      in out1 @ out2 @ out3 @ out4)"

section \<open>Delegate (delegate.cpp)\<close>

datatype PrintStrategy = ConsolePrint | FilePrint

fun PrintStrategy_print :: "PrintStrategy \<Rightarrow> string \<Rightarrow> console" where
  "PrintStrategy_print ConsolePrint text = [''Printing to console: '' @ text]"
| "PrintStrategy_print FilePrint text = [''Saving to file: '' @ text]"

datatype Printer = Printer "PrintStrategy option"

definition Printer_new :: Printer where
  "Printer_new = Printer None"

fun setPrintStrategy :: "Printer \<Rightarrow> PrintStrategy option \<Rightarrow> Printer" where
  "setPrintStrategy (Printer strategy) newStrategy = Printer newStrategy"

fun Printer_print :: "Printer \<Rightarrow> string \<Rightarrow> Printer \<times> console" where
  "Printer_print (Printer (Some strategy)) text =
     (Printer (Some strategy), PrintStrategy_print strategy text)"
| "Printer_print (Printer None) text = (Printer None, [''No print strategy set!''])"

definition delegate_main :: console where
  "delegate_main =
     (let printer = Printer_new;
          printer = setPrintStrategy printer (Some ConsolePrint);
          (printer, out1) = Printer_print printer ''Hello, Console!'';
          printer = setPrintStrategy printer (Some FilePrint);
          (printer, out2) = Printer_print printer ''Hello, File!''
      in out1 @ out2)"

section \<open>Factory (factory.cpp, the simple factory)\<close>

datatype Car = Sedan | SUV | SportsCar

fun drive :: "Car \<Rightarrow> console" where
  "drive Sedan = [''Driving a Sedan.'']"
| "drive SUV = [''Driving an SUV.'']"
| "drive SportsCar = [''Driving a Sports Car.'']"

text \<open>The one exception of the repository, with the text given to its constructor.\<close>

datatype error = invalid_argument string

text \<open>
  \<open>createCar\<close> compares the selector with three literals in turn and throws in the final
  \<open>else\<close>; a throw is the left injection, and then no car is returned.
\<close>

definition createCar :: "string \<Rightarrow> error + Car" where
  "createCar type =
     (if type = ''Sedan'' then Inr Sedan
      else if type = ''SUV'' then Inr SUV
      else if type = ''SportsCar'' then Inr SportsCar
      else Inl (invalid_argument ''Unknown car type''))"

text \<open>
  \<open>main\<close> does not catch: an exception out of \<open>createCar\<close> ends the program before
  anything is printed.
\<close>

definition factory_main :: "error + console" where
  "factory_main =
     (case createCar ''Sedan'' of Inl e \<Rightarrow> Inl e | Inr sedan \<Rightarrow>
      (case createCar ''SUV'' of Inl e \<Rightarrow> Inl e | Inr suv \<Rightarrow>
       Inr (drive sedan @ drive suv)))"

section \<open>Proxy (proxy.cpp)\<close>

text \<open>The real image has one member, its file name; its constructor loads from disk.\<close>

datatype RealImage = RealImage string

definition loadFromDisk :: "string \<Rightarrow> console" where
  "loadFromDisk file = [''Loading image from disk: '' @ file]"

definition RealImage_new :: "string \<Rightarrow> RealImage \<times> console" where
  "RealImage_new file = (RealImage file, loadFromDisk file)"

fun RealImage_display :: "RealImage \<Rightarrow> console" where
  "RealImage_display (RealImage fileName) = [''Displaying image: '' @ fileName]"

text \<open>
  The proxy owns the real image through a raw pointer that starts null. Nothing else
  ever holds that pointer, so the pointee is stored in place.
\<close>

record ProxyImage =
  fileName :: string
  realImage :: "RealImage option"

definition ProxyImage_new :: "string \<Rightarrow> ProxyImage" where
  "ProxyImage_new file = \<lparr>fileName = file, realImage = None\<rparr>"

definition display :: "ProxyImage \<Rightarrow> ProxyImage \<times> console" where
  "display p =
     (case realImage p of
        None \<Rightarrow>
          (let (r, out) = RealImage_new (fileName p)
           in (p\<lparr>realImage := Some r\<rparr>, out @ RealImage_display r))
      | Some r \<Rightarrow> (p, RealImage_display r))"

text \<open>Calling \<open>display\<close> \<open>n\<close> times in a row; the output of each call is kept apart.\<close>

fun display_times :: "nat \<Rightarrow> ProxyImage \<Rightarrow> ProxyImage \<times> console list" where
  "display_times 0 p = (p, [])"
| "display_times (Suc n) p =
     (let (p1, out) = display p; (p2, outs) = display_times n p1 in (p2, out # outs))"

definition proxy_main :: console where
  "proxy_main =
     (let proxyImage = ProxyImage_new ''test_image.jpg'';
          out0 = [''Image is not yet loaded.''];
          (proxyImage, out1) = display proxyImage;
          (proxyImage, out2) = display proxyImage
      in out0 @ out1 @ out2)"

section \<open>Singleton (singleton.cpp)\<close>

text \<open>
  The state of the program: the static pointer \<open>Singleton::instance\<close> (null at start),
  the \<open>Singleton\<close> objects constructed so far, by address, and the console. A
  \<open>Singleton\<close> has no member, so an object is its address. \<open>new\<close> returns an address that
  no earlier object has: here, the number of objects constructed before it.
\<close>

record SingletonProgram =
  instance_ptr :: "addr option"
  constructed :: "addr list"
  console_out :: console

definition Singleton_start :: SingletonProgram where
  "Singleton_start = \<lparr>instance_ptr = None, constructed = [], console_out = []\<rparr>"

text \<open>\<open>new Singleton()\<close>: allocate, then run the constructor, which prints.\<close>

definition new_Singleton :: "SingletonProgram \<Rightarrow> addr \<times> SingletonProgram" where
  "new_Singleton s =
     (let p = length (constructed s)
      in (p, s\<lparr>constructed := constructed s @ [p],
                console_out := console_out s @ [''Singleton instance created.'']\<rparr>))"

definition getInstance :: "SingletonProgram \<Rightarrow> addr option \<times> SingletonProgram" where
  "getInstance s =
     (let s1 = (if instance_ptr s = None
                then (let (p, s') = new_Singleton s in s'\<lparr>instance_ptr := Some p\<rparr>)
                else s)
      in (instance_ptr s1, s1))"

text \<open>\<open>n\<close> calls one after the other, with the pointer each call returned.\<close>

fun getInstance_times :: "nat \<Rightarrow> SingletonProgram \<Rightarrow> addr option list \<times> SingletonProgram" where
  "getInstance_times 0 s = ([], s)"
| "getInstance_times (Suc n) s =
     (let (r, s1) = getInstance s; (rs, s2) = getInstance_times n s1 in (r # rs, s2))"

definition displayMessage :: "SingletonProgram \<Rightarrow> SingletonProgram" where
  "displayMessage s = s\<lparr>console_out := console_out s @ [''This is the Singleton instance.'']\<rparr>"

definition singleton_main :: console where
  "singleton_main =
     (let (s1, prog) = getInstance Singleton_start;
          prog = displayMessage prog;
          (s2, prog) = getInstance prog;
          prog = (if s1 = s2
                  then prog\<lparr>console_out := console_out prog @ [''Both instances are the same.'']\<rparr>
                  else prog)
      in console_out prog)"

section \<open>Prototype (prototype.cpp)\<close>

text \<open>
  Printing an \<open>int\<close> with \<open>operator<<\<close>: decimal digits, with a minus sign in front of a
  negative number.
\<close>

fun show_nat :: "nat \<Rightarrow> string" where
  "show_nat n =
     (if n < 10 then [''0123456789'' ! n]
      else show_nat (n div 10) @ [''0123456789'' ! (n mod 10)])"

declare show_nat.simps [simp del]

definition show_int :: "int \<Rightarrow> string" where
  "show_int i = (if i < 0 then CHR ''-'' # show_nat (nat (- i)) else show_nat (nat i))"

text \<open>
  The two concrete shapes with their \<open>int\<close> members. The members are only stored, copied
  and printed, never computed with, so their width does not matter here.
\<close>

datatype Shape = Circle int | Rectangle int int

fun draw :: "Shape \<Rightarrow> console" where
  "draw (Circle radius) = [''Drawing a Circle with radius '' @ show_int radius]"
| "draw (Rectangle width height) =
     [''Drawing a Rectangle with width '' @ show_int width @ '' and height '' @ show_int height]"

text \<open>The copy constructors build a shape of the same class, member by member.\<close>

fun Shape_copy :: "Shape \<Rightarrow> Shape" where
  "Shape_copy (Circle radius) = Circle radius"
| "Shape_copy (Rectangle width height) = Rectangle width height"

text \<open>
  The store holds the shapes made so far; the address of a shape is its index, and
  \<open>make_shared\<close> puts the new object behind the others. \<open>clone\<close> is called through a
  pointer: on a pointer to no live shape it has no defined result (\<open>None\<close>).
\<close>

type_synonym shape_store = "Shape list"

definition make_shared :: "shape_store \<Rightarrow> Shape \<Rightarrow> addr \<times> shape_store" where
  "make_shared h s = (length h, h @ [s])"

definition lookup :: "shape_store \<Rightarrow> addr \<Rightarrow> Shape option" where
  "lookup h p = (if p < length h then Some (h ! p) else None)"

definition clone :: "shape_store \<Rightarrow> addr \<Rightarrow> (addr \<times> shape_store) option" where
  "clone h p =
     (case lookup h p of
        None \<Rightarrow> None
      | Some s \<Rightarrow> Some (make_shared h (Shape_copy s)))"

definition draw_at :: "shape_store \<Rightarrow> addr \<Rightarrow> console option" where
  "draw_at h p = map_option draw (lookup h p)"

definition prototype_main :: "console option" where
  "prototype_main =
     (let (circlePrototype, h) = make_shared [] (Circle 10);
          (rectanglePrototype, h) = make_shared h (Rectangle 5 8)
      in case clone h circlePrototype of None \<Rightarrow> None | Some (clonedCircle, h) \<Rightarrow>
         (case draw_at h clonedCircle of None \<Rightarrow> None | Some out1 \<Rightarrow>
         (case clone h rectanglePrototype of None \<Rightarrow> None | Some (clonedRectangle, h) \<Rightarrow>
         (case draw_at h clonedRectangle of None \<Rightarrow> None | Some out2 \<Rightarrow>
            Some (out1 @ out2)))))"

section \<open>Composite (composite.cpp)\<close>

text \<open>
  An employee is a developer or a designer (name and position), or a manager with a name
  and the team, a vector of employees. A value of this type is a tree: no employee is
  its own descendant.
\<close>

datatype Employee =
    Developer string string
  | Designer string string
  | Manager string "Employee list"

text \<open>\<open>addEmployee\<close> is a member of \<open>Manager\<close> only: it pushes onto the team.\<close>

definition addEmployee :: "Employee list \<Rightarrow> Employee \<Rightarrow> Employee list" where
  "addEmployee team employee = team @ [employee]"

fun showDetails :: "Employee \<Rightarrow> console" where
  "showDetails (Developer name position) = [''Developer: '' @ name @ '', Position: '' @ position]"
| "showDetails (Designer name position) = [''Designer: '' @ name @ '', Position: '' @ position]"
| "showDetails (Manager name team) = (''Manager: '' @ name) # concat (map showDetails team)"

definition composite_main :: console where
  "composite_main =
     (let dev1 = Developer ''Alice'' ''Frontend Developer'';
          dev2 = Developer ''Bob'' ''Backend Developer'';
          designer = Designer ''Charlie'' ''UX Designer'';
          teamLead = [];
          teamLead = addEmployee teamLead dev1;
          teamLead = addEmployee teamLead dev2;
          teamLead = addEmployee teamLead designer;
          generalManager = [];
          generalManager = addEmployee generalManager (Manager ''Team Lead'' teamLead)
      in showDetails (Manager ''General Manager'' generalManager))"

text \<open>
  The vocabulary of the traversal property. A node of a tree is named by its path from
  the root, the list of child indices to follow; \<open>subtree\<close> follows a path, and fails
  where the path leaves the tree.
\<close>

fun team_of :: "Employee \<Rightarrow> Employee list" where
  "team_of (Manager name team) = team"
| "team_of (Developer name position) = []"
| "team_of (Designer name position) = []"

fun subtree :: "Employee \<Rightarrow> nat list \<Rightarrow> Employee option" where
  "subtree e [] = Some e"
| "subtree e (i # p) =
     (if i < length (team_of e) then subtree (team_of e ! i) p else None)"

text \<open>The line a node prints for itself, apart from its team.\<close>

fun own_line :: "Employee \<Rightarrow> string" where
  "own_line (Developer name position) = ''Developer: '' @ name @ '', Position: '' @ position"
| "own_line (Designer name position) = ''Designer: '' @ name @ '', Position: '' @ position"
| "own_line (Manager name team) = ''Manager: '' @ name"

text \<open>The number of nodes of a tree.\<close>

fun node_count :: "Employee \<Rightarrow> nat" where
  "node_count (Developer name position) = 1"
| "node_count (Designer name position) = 1"
| "node_count (Manager name team) = Suc (sum_list (map node_count team))"

text \<open>
  The paths of a tree in depth-first pre-order: the root, then the paths into each member
  of the team, first member first.
\<close>

fun preorder :: "Employee \<Rightarrow> nat list list"
  and preorder_from :: "nat \<Rightarrow> Employee list \<Rightarrow> nat list list" where
  "preorder (Developer name position) = [[]]"
| "preorder (Designer name position) = [[]]"
| "preorder (Manager name team) = [] # preorder_from 0 team"
| "preorder_from i [] = []"
| "preorder_from i (e # es) = map ((#) i) (preorder e) @ preorder_from (Suc i) es"

section \<open>Decorator (decorator.cpp)\<close>

subsection \<open>The arithmetic of \<open>double\<close>\<close>

text \<open>
  A finite \<open>double\<close> is the rational number it stands for. A literal and the result of
  an addition are rounded to the nearest number of the binary64 format, ties to the even
  significand: with \<open>e\<close> the binary exponent of the exact value (not below the smallest
  normal exponent \<open>-1022\<close>), the format has the multiples of \<open>2 powi (e - 52)\<close>.
  Overflow to infinity is not modelled; no cost comes near \<open>2 ^ 1024\<close>.
\<close>

type_synonym double = rat

definition round_ties_even :: "rat \<Rightarrow> int" where
  "round_ties_even x =
     (let f = \<lfloor>x\<rfloor>; d = x - of_int f
      in if d < 1/2 then f else if 1/2 < d then f + 1 else if even f then f else f + 1)"

text \<open>The binary exponent of a positive rational: the \<open>e\<close> with \<open>2 powi e \<le> x < 2 powi (e + 1)\<close>.\<close>

definition floor_log2 :: "rat \<Rightarrow> int" where
  "floor_log2 x =
     (let (a, b) = quotient_of x; e = bitlen a - bitlen b
      in if 2 powi e \<le> x then e else e - 1)"

definition binary64 :: "rat \<Rightarrow> double" where
  "binary64 x =
     (if x = 0 then 0
      else let e = max (floor_log2 \<bar>x\<bar>) (- 1022);
               q = 2 powi (e - 52)
           in sgn x * of_int (round_ties_even (\<bar>x\<bar> / q)) * q)"

definition double_add :: "double \<Rightarrow> double \<Rightarrow> double" where
  "double_add x y = binary64 (x + y)"

subsection \<open>Coffee and its decorators\<close>

text \<open>
  A decorator holds a shared pointer to the coffee it wraps and never changes it, so a
  decorated coffee is the tree of its wrappers. \<open>CoffeeDecorator\<close> itself is not
  abstract: it forwards both operations.
\<close>

datatype Coffee =
    PlainCoffee
  | CoffeeDecorator Coffee
  | MilkDecorator Coffee
  | SugarDecorator Coffee
  | CaramelDecorator Coffee

fun getDescription :: "Coffee \<Rightarrow> string" where
  "getDescription PlainCoffee = ''Plain Coffee''"
| "getDescription (CoffeeDecorator coffee) = getDescription coffee"
| "getDescription (MilkDecorator coffee) = getDescription coffee @ '', Milk''"
| "getDescription (SugarDecorator coffee) = getDescription coffee @ '', Sugar''"
| "getDescription (CaramelDecorator coffee) = getDescription coffee @ '', Caramel''"

fun getCost :: "Coffee \<Rightarrow> double" where
  "getCost PlainCoffee = binary64 2"
| "getCost (CoffeeDecorator coffee) = getCost coffee"
| "getCost (MilkDecorator coffee) = double_add (getCost coffee) (binary64 (5 / 10))"
| "getCost (SugarDecorator coffee) = double_add (getCost coffee) (binary64 (2 / 10))"
| "getCost (CaramelDecorator coffee) = double_add (getCost coffee) (binary64 (7 / 10))"

text \<open>The coffee that \<open>main\<close> builds: plain, then milk, then sugar, then caramel.\<close>

definition myCoffee :: Coffee where
  "myCoffee = CaramelDecorator (SugarDecorator (MilkDecorator PlainCoffee))"

section \<open>Verification\<close>

subsection \<open>Observer: what the erase-remove idiom computes\<close>

lemma std_find_takeWhile:
  "i \<le> length xs \<Longrightarrow> std_find v i xs = i + length (takeWhile (\<lambda>x. x \<noteq> v) (drop i xs))"
proof (induction v i xs rule: std_find.induct)
  case (1 v i xs)
  show ?case
  proof (cases "i < length xs")
    case True
    then have d: "drop i xs = xs ! i # drop (Suc i) xs"
      by (simp add: Cons_nth_drop_Suc)
    show ?thesis
    proof (cases "xs ! i = v")
      case True
      with \<open>i < length xs\<close> d show ?thesis
        by (simp add: std_find.simps [of v i xs])
    next
      case False
      with True "1.IH" d show ?thesis
        by (simp add: std_find.simps [of v i xs])
    qed
  next
    case False
    have "std_find v i xs = length xs"
      using False by (subst std_find.simps) simp
    with False "1.prems" show ?thesis by simp
  qed
qed

lemma std_remove_loop_inv:
  "w \<le> r \<Longrightarrow> r \<le> length xs \<Longrightarrow> std_remove_loop v w r xs = (w', xs') \<Longrightarrow>
     take w' xs' = take w xs @ filter (\<lambda>x. x \<noteq> v) (drop r xs) \<and> length xs' = length xs"
proof (induction v w r xs arbitrary: w' xs' rule: std_remove_loop.induct)
  case (1 v w r xs)
  show ?case
  proof (cases "r < length xs")
    case True
    then have d: "drop r xs = xs ! r # drop (Suc r) xs"
      by (simp add: Cons_nth_drop_Suc)
    show ?thesis
    proof (cases "xs ! r \<noteq> v")
      case keep: True
      from "1.prems"(3) True keep
      have run: "std_remove_loop v (Suc w) (Suc r) (xs[w := xs ! r]) = (w', xs')"
        by (simp add: std_remove_loop.simps [of v w r xs])
      have "take w' xs' = take (Suc w) (xs[w := xs ! r])
              @ filter (\<lambda>x. x \<noteq> v) (drop (Suc r) (xs[w := xs ! r]))
            \<and> length xs' = length (xs[w := xs ! r])"
        using "1.IH"(1) [OF True keep _ _ run] "1.prems"(1) True by simp
      moreover have "take (Suc w) (xs[w := xs ! r]) = take w xs @ [xs ! r]"
        using "1.prems"(1) True by (simp add: take_Suc_conv_app_nth)
      moreover have "drop (Suc r) (xs[w := xs ! r]) = drop (Suc r) xs"
        using "1.prems"(1) by simp
      ultimately show ?thesis using d keep by simp
    next
      case drop: False
      from "1.prems"(3) True drop
      have run: "std_remove_loop v w (Suc r) xs = (w', xs')"
        by (simp add: std_remove_loop.simps [of v w r xs])
      have "take w' xs' = take w xs @ filter (\<lambda>x. x \<noteq> v) (drop (Suc r) xs)
            \<and> length xs' = length xs"
        using "1.IH"(2) [OF True drop _ _ run] "1.prems"(1) True by simp
      then show ?thesis using d drop by simp
    qed
  next
    case False
    have "std_remove_loop v w r xs = (w, xs)"
      using False by (subst std_remove_loop.simps) simp
    with False "1.prems" show ?thesis by simp
  qed
qed

lemma takeWhile_neq_no_match: "x \<in> set (takeWhile (\<lambda>x. x \<noteq> v) xs) \<Longrightarrow> x \<noteq> v"
  by (drule set_takeWhileD) simp

lemma std_remove_filter:
  assumes "std_remove xs v = (w, xs')"
  shows "take w xs' = filter (\<lambda>x. x \<noteq> v) xs \<and> length xs' = length xs"
proof -
  let ?f = "std_find v 0 xs"
  have f: "?f = length (takeWhile (\<lambda>x. x \<noteq> v) xs)"
    using std_find_takeWhile [of 0 xs v] by simp
  show ?thesis
  proof (cases "?f = length xs")
    case True
    then have "takeWhile (\<lambda>x. x \<noteq> v) xs = xs"
      using f by (metis takeWhile_eq_take take_all_iff order_refl)
    then have "\<forall>x\<in>set xs. x \<noteq> v"
      using takeWhile_neq_no_match [of _ v xs] by auto
    then have "filter (\<lambda>x. x \<noteq> v) xs = xs"
      by (simp add: filter_id_conv)
    with True assms show ?thesis by (auto simp: std_remove_def Let_def)
  next
    case False
    then have lt: "?f < length xs" using f length_takeWhile_le [of "\<lambda>x. x \<noteq> v" xs] by simp
    have run: "std_remove_loop v ?f (Suc ?f) xs = (w, xs')"
      using assms False by (simp add: std_remove_def Let_def)
    have inv: "take w xs' = take ?f xs @ filter (\<lambda>x. x \<noteq> v) (drop (Suc ?f) xs)
               \<and> length xs' = length xs"
      using std_remove_loop_inv [OF _ _ run] lt by simp
    have tk: "take ?f xs = takeWhile (\<lambda>x. x \<noteq> v) xs"
      by (subst f) (rule takeWhile_eq_take [symmetric])
    have hit: "xs ! ?f = v"
      using lt f nth_length_takeWhile [of "\<lambda>x. x \<noteq> v" xs] by simp
    have "xs = take ?f xs @ xs ! ?f # drop (Suc ?f) xs"
      using lt by (simp add: id_take_nth_drop [symmetric])
    then have "filter (\<lambda>x. x \<noteq> v) xs
               = filter (\<lambda>x. x \<noteq> v) (take ?f xs) @ filter (\<lambda>x. x \<noteq> v) (drop (Suc ?f) xs)"
      using hit by (metis (mono_tags, lifting) filter.simps(2) filter_append)
    moreover have "filter (\<lambda>x. x \<noteq> v) (take ?f xs) = take ?f xs"
      unfolding tk by (auto simp: filter_id_conv dest: takeWhile_neq_no_match)
    ultimately show ?thesis using inv by simp
  qed
qed

lemma detach_filter: "detach a p = a\<lparr>observers := filter (\<lambda>x. x \<noteq> p) (observers a)\<rparr>"
proof -
  obtain w v where r: "std_remove (observers a) p = (w, v)"
    by (cases "std_remove (observers a) p")
  from std_remove_filter [OF r] show ?thesis
    by (simp add: detach_def r vector_erase_def)
qed

lemma observers_foldl_attach: "observers (foldl attach a os) = observers a @ os"
  by (induction os arbitrary: a) (simp_all add: attach_def)

lemma latestNews_foldl_attach: "latestNews (foldl attach a os) = latestNews a"
  by (induction os arbitrary: a) (simp_all add: attach_def)

lemma filter_neq_remove1: "distinct xs \<Longrightarrow> filter (\<lambda>x. x \<noteq> p) xs = remove1 p xs"
  by (induction xs) (auto simp: remove1_idem)

lemma receiver_count:
  "distinct os \<Longrightarrow> q \<in> set os \<Longrightarrow> length (filter (\<lambda>c. fst c = q) (map (\<lambda>x. (x, v)) os)) = 1"
proof (induction os)
  case Nil
  then show ?case by simp
next
  case (Cons x os)
  show ?case
  proof (cases "x = q")
    case True
    with Cons.prems have "filter (\<lambda>c. fst c = q) (map (\<lambda>x. (x, v)) os) = []"
      by (auto simp: filter_empty_conv)
    with True show ?thesis by simp
  next
    case False
    with Cons show ?thesis by simp
  qed
qed

lemma setNews_unfold:
  "setNews a v = (a\<lparr>latestNews := v\<rparr>, map (\<lambda>q. (q, v)) (observers a))"
  by (simp add: setNews_def notify_def)

subsection \<open>Observer: delivery\<close>

text \<open>The demo prints the three lines its closing comment lists.\<close>

lemma observer_main_output:
  "observer_main =
     [''Alice received update: Breaking News: Observer Pattern Implemented!'',
      ''Bob received update: Breaking News: Observer Pattern Implemented!'',
      ''Alice received update: Update: Observer Pattern is Awesome!'']"
  by (simp add: observer_main_def detach_filter attach_def NewsAgency_new_def setNews_def
      notify_def deliver_def Subscriber_update_def observer_names_def)

text \<open>
  C1. Attach the \<open>k\<close> observers \<open>os\<close> to a fresh agency. Then \<open>setNews v\<close> stores \<open>v\<close> as the
  state and calls \<open>update v\<close> on every observer of \<open>os\<close>, in the order of attachment, before
  it returns: the calls are exactly the list \<open>os\<close> paired with \<open>v\<close>, so there are \<open>k\<close> of
  them and, the observers being distinct, every observer receives exactly one. After
  \<open>detach p\<close> for an attached \<open>p\<close>, \<open>setNews v2\<close> calls the \<open>k - 1\<close> others with \<open>v2\<close>, in
  order, and not \<open>p\<close>.
\<close>

theorem setNews_delivers_in_attachment_order:
  "distinct os \<Longrightarrow>
     (let a = foldl attach NewsAgency_new os;
          (a1, calls1) = setNews a v
      in latestNews a1 = v \<and> observers a1 = os \<and>
         calls1 = map (\<lambda>q. (q, v)) os \<and> length calls1 = length os \<and>
         (\<forall>q \<in> set os. length (filter (\<lambda>c. fst c = q) calls1) = 1) \<and>
         (p \<in> set os \<longrightarrow>
            (let (a2, calls2) = setNews (detach a1 p) v2
             in latestNews a2 = v2 \<and> calls2 = map (\<lambda>q. (q, v2)) (remove1 p os) \<and>
                length calls2 = length os - 1 \<and> p \<notin> fst ` set calls2)))"
proof -
  assume d: "distinct os"
  let ?a = "foldl attach NewsAgency_new os"
  let ?a1 = "?a\<lparr>latestNews := v\<rparr>"
  let ?a2 = "(detach ?a1 p)\<lparr>latestNews := v2\<rparr>"
  have obs: "observers ?a = os"
    by (simp add: observers_foldl_attach NewsAgency_new_def)
  have s1: "setNews ?a v = (?a1, map (\<lambda>q. (q, v)) os)"
    by (simp add: setNews_unfold obs)
  have det: "observers (detach ?a1 p) = remove1 p os"
    using d by (simp add: detach_filter obs filter_neq_remove1)
  have s2: "setNews (detach ?a1 p) v2 = (?a2, map (\<lambda>q. (q, v2)) (remove1 p os))"
    by (simp add: setNews_unfold det)
  have once: "\<forall>q \<in> set os. length (filter (\<lambda>c. fst c = q) (map (\<lambda>q. (q, v)) os)) = 1"
  proof
    fix q assume "q \<in> set os"
    with d show "length (filter (\<lambda>c. fst c = q) (map (\<lambda>q. (q, v)) os)) = 1"
      by (rule receiver_count)
  qed
  have len: "p \<in> set os \<longrightarrow> length (map (\<lambda>q. (q, v2)) (remove1 p os)) = length os - 1"
    by (simp add: length_remove1)
  have gone: "p \<notin> fst ` set (map (\<lambda>q. (q, v2)) (remove1 p os))"
  proof
    assume "p \<in> fst ` set (map (\<lambda>q. (q, v2)) (remove1 p os))"
    then have "p \<in> set (remove1 p os)" by (simp add: image_image)
    with d show False by simp
  qed
  have part2: "p \<in> set os \<longrightarrow>
            (let (a2, calls2) = setNews (detach ?a1 p) v2
             in latestNews a2 = v2 \<and> calls2 = map (\<lambda>q. (q, v2)) (remove1 p os) \<and>
                length calls2 = length os - 1 \<and> p \<notin> fst ` set calls2)"
    unfolding s2 Let_def prod.case using len gone by simp
  show ?thesis
    unfolding Let_def s1 prod.case using obs once part2 by (simp add: Let_def)
qed

theorem setNews_delivers_witness:
  "distinct [1, 2, 3 :: addr] \<and> 2 \<in> set [1, 2, 3 :: addr] \<and>
   snd (setNews (foldl attach NewsAgency_new [1, 2, 3]) ''v'') = [(1, ''v''), (2, ''v''), (3, ''v'')] \<and>
   snd (setNews (detach (fst (setNews (foldl attach NewsAgency_new [1, 2, 3]) ''v'')) 2) ''w'')
     = [(1, ''w''), (3, ''w'')]"
proof -
  have h: "distinct [1, 2, 3 :: addr]" by simp
  show ?thesis
    using setNews_delivers_in_attachment_order [OF h, of "''v''" 2 "''w''"]
    by (simp add: Let_def split_beta)
qed

subsection \<open>Observer: detaching\<close>

text \<open>
  The reading of \<open>detach\<close> as "remove the first matching reference" fails on an
  observer attached twice: one \<open>detach\<close> leaves no occurrence, where removing the first
  one would leave the second.
\<close>

theorem detach_first_only_counterexample:
  "observers (detach (attach (attach NewsAgency_new 7) 7) 7) = [] \<and>
   observers (detach (attach (attach NewsAgency_new 7) 7) 7)
     \<noteq> remove1 7 (observers (attach (attach NewsAgency_new 7) 7))"
  by (simp add: detach_filter attach_def NewsAgency_new_def)

text \<open>
  C2, as the code has it. \<open>detach p\<close> removes every occurrence of \<open>p\<close> from the observer
  list, keeps the other observers in their order and leaves the news alone; it changes
  nothing when \<open>p\<close> is not attached. \<open>attach\<close> appends without looking for duplicates, so
  attaching \<open>p\<close> twice adds two occurrences, and a single \<open>detach p\<close> then removes both.
\<close>

theorem detach_removes_every_occurrence:
  "observers (detach a p) = filter (\<lambda>x. x \<noteq> p) (observers a) \<and>
   latestNews (detach a p) = latestNews a \<and>
   p \<notin> set (observers (detach a p)) \<and>
   (p \<notin> set (observers a) \<longrightarrow> detach a p = a) \<and>
   observers (attach a p) = observers a @ [p] \<and>
   count_list (observers (attach (attach a p) p)) p = count_list (observers a) p + 2 \<and>
   count_list (observers (detach (attach (attach a p) p) p)) p = 0"
proof -
  have "p \<notin> set (observers a) \<Longrightarrow> filter (\<lambda>x. x \<noteq> p) (observers a) = observers a"
    by (simp add: filter_id_conv) blast
  then show ?thesis
    by (auto simp: detach_filter attach_def)
qed

theorem detach_removes_every_occurrence_witness:
  "3 \<notin> set (observers (attach (attach NewsAgency_new 1) 2)) \<and>
   detach (attach (attach NewsAgency_new 1) 2) 3 = attach (attach NewsAgency_new 1) 2 \<and>
   observers (detach (attach (attach (attach NewsAgency_new 1) 2) 1) 1) = [2]"
  using detach_removes_every_occurrence [of "attach (attach NewsAgency_new 1) 2" 3]
        detach_removes_every_occurrence [of "attach (attach (attach NewsAgency_new 1) 2) 1" 1]
  by (simp add: attach_def NewsAgency_new_def)

subsection \<open>Strategy, Command and Delegate: nothing assigned\<close>

text \<open>The three demos print what their sources' comments list.\<close>

lemma strategy_main_output:
  "strategy_main =
     [''Calculating the shortest route.'', ''Calculating the fastest route.'',
      ''Calculating the scenic route.'']"
  by (simp add: strategy_main_def GPSNavigator_new_def)

lemma command_main_output:
  "command_main = [''Light is ON'', ''Light is OFF'', ''Light is OFF'', ''Light is ON'']"
  by (simp add: command_main_def RemoteControl_new_def turnOn_def turnOff_def)

lemma delegate_main_output:
  "delegate_main = [''Printing to console: Hello, Console!'', ''Saving to file: Hello, File!'']"
  by (simp add: delegate_main_def Printer_new_def)

text \<open>
  A remote control with no command prints no notice: \<open>pressButton\<close> and \<open>pressUndo\<close> write
  nothing at all.
\<close>

theorem pressButton_notice_counterexample:
  "snd (pressButton RemoteControl_new) = [] \<and> snd (pressUndo RemoteControl_new) = []"
  by (simp add: RemoteControl_new_def)

text \<open>
  C3, as the code has it. With no strategy assigned (a fresh navigator or printer, or one
  given a null pointer), \<open>navigate\<close> prints the one line \<open>No strategy set.\<close> and
  \<open>print\<close> the one line \<open>No print strategy set!\<close>, whatever the text; neither fails and the
  object is unchanged. With no command assigned, \<open>pressButton\<close> and \<open>pressUndo\<close> do not fail
  either, but they print nothing and change nothing.
\<close>

theorem nothing_assigned_degrades_gracefully:
  "navigate GPSNavigator_new = [''No strategy set.''] \<and>
   navigate (setStrategy nav None) = [''No strategy set.''] \<and>
   Printer_print Printer_new text = (Printer_new, [''No print strategy set!'']) \<and>
   Printer_print (setPrintStrategy pr None) text = (setPrintStrategy pr None, [''No print strategy set!'']) \<and>
   pressButton RemoteControl_new = (RemoteControl_new, []) \<and>
   pressUndo RemoteControl_new = (RemoteControl_new, []) \<and>
   pressButton (setCommand rc None) = (setCommand rc None, []) \<and>
   pressUndo (setCommand rc None) = (setCommand rc None, [])"
  by (cases nav; cases pr; cases rc)
     (simp add: GPSNavigator_new_def Printer_new_def RemoteControl_new_def)

subsection \<open>Factory\<close>

lemma factory_main_output:
  "factory_main = Inr [''Driving a Sedan.'', ''Driving an SUV.'']"
  by (simp add: factory_main_def createCar_def)

text \<open>
  C5. \<open>createCar "Sedan"\<close> returns a car, and its \<open>drive\<close> prints \<open>Driving a Sedan.\<close>; for a
  selector that is none of \<open>Sedan\<close>, \<open>SUV\<close> and \<open>SportsCar\<close>, \<open>createCar\<close> returns no car
  and throws \<open>invalid_argument\<close> to its caller.
\<close>

theorem createCar_sedan_or_invalid_argument:
  "(case createCar ''Sedan'' of Inr car \<Rightarrow> drive car = [''Driving a Sedan.''] | Inl e \<Rightarrow> False) \<and>
   (t \<notin> {''Sedan'', ''SUV'', ''SportsCar''} \<longrightarrow>
      createCar t = Inl (invalid_argument ''Unknown car type''))"
  by (simp add: createCar_def)

theorem createCar_invalid_argument_witness:
  "''Truck'' \<notin> {''Sedan'', ''SUV'', ''SportsCar''} \<and>
   createCar ''Truck'' = Inl (invalid_argument ''Unknown car type'') \<and>
   createCar '''' = Inl (invalid_argument ''Unknown car type'')"
  using createCar_sedan_or_invalid_argument [of "''Truck''"]
        createCar_sedan_or_invalid_argument [of "''''"]
  by simp

subsection \<open>Proxy\<close>

lemma proxy_main_output:
  "proxy_main =
     [''Image is not yet loaded.'', ''Loading image from disk: test_image.jpg'',
      ''Displaying image: test_image.jpg'', ''Displaying image: test_image.jpg'']"
  by (simp add: proxy_main_def ProxyImage_new_def display_def RealImage_new_def loadFromDisk_def)

lemma display_loaded:
  "display \<lparr>fileName = f, realImage = Some (RealImage g)\<rparr>
     = (\<lparr>fileName = f, realImage = Some (RealImage g)\<rparr>, [''Displaying image: '' @ g])"
  by (simp add: display_def)

lemma display_times_loaded:
  "display_times n \<lparr>fileName = f, realImage = Some (RealImage g)\<rparr>
     = (\<lparr>fileName = f, realImage = Some (RealImage g)\<rparr>, replicate n [''Displaying image: '' @ g])"
  by (induction n) (simp_all add: display_loaded)

text \<open>
  C6. On a proxy made for the file \<open>f\<close>, the first \<open>display\<close> prints the loading line and
  then the displaying line, and stores the real image it built; each of the \<open>n\<close> calls
  after it prints the displaying line only, and the stored image stays the same.
\<close>

theorem display_loads_once:
  "display_times (Suc n) (ProxyImage_new f)
     = (\<lparr>fileName = f, realImage = Some (RealImage f)\<rparr>,
        [''Loading image from disk: '' @ f, ''Displaying image: '' @ f]
          # replicate n [''Displaying image: '' @ f])"
  by (simp add: ProxyImage_new_def display_def RealImage_new_def loadFromDisk_def
      display_times_loaded)

subsection \<open>Singleton\<close>

lemma singleton_main_output:
  "singleton_main =
     [''Singleton instance created.'', ''This is the Singleton instance.'',
      ''Both instances are the same.'']"
  by (simp add: singleton_main_def getInstance_def new_Singleton_def Singleton_start_def
      displayMessage_def)

lemma getInstance_first:
  "getInstance Singleton_start
     = (Some 0, \<lparr>instance_ptr = Some 0, constructed = [0],
                  console_out = [''Singleton instance created.'']\<rparr>)"
  by (simp add: getInstance_def new_Singleton_def Singleton_start_def)

lemma getInstance_again: "instance_ptr s = Some p \<Longrightarrow> getInstance s = (Some p, s)"
  by (simp add: getInstance_def)

lemma getInstance_times_again:
  "instance_ptr s = Some p \<Longrightarrow> getInstance_times n s = (replicate n (Some p), s)"
  by (induction n) (simp_all add: getInstance_again)

text \<open>
  C7. From the start of the program, \<open>n + 1\<close> calls of \<open>getInstance\<close> in a row all return
  the pointer that the first call returned, which is not null; one \<open>Singleton\<close> has been
  constructed, and the console holds the line \<open>Singleton instance created.\<close> once and
  nothing else, whatever \<open>n\<close> is.
\<close>

theorem getInstance_same_instance_created_once:
  "getInstance_times (Suc n) Singleton_start
     = (replicate (Suc n) (fst (getInstance Singleton_start)), snd (getInstance Singleton_start)) \<and>
   fst (getInstance Singleton_start) \<noteq> None \<and>
   length (constructed (snd (getInstance_times (Suc n) Singleton_start))) = 1 \<and>
   console_out (snd (getInstance_times (Suc n) Singleton_start)) = [''Singleton instance created.''] \<and>
   count_list (console_out (snd (getInstance_times (Suc n) Singleton_start)))
     ''Singleton instance created.'' = 1"
  by (simp add: getInstance_first getInstance_times_again)

subsection \<open>Prototype\<close>

lemma prototype_main_output:
  "prototype_main =
     Some [''Drawing a Circle with radius 10'', ''Drawing a Rectangle with width 5 and height 8'']"
  by (simp add: prototype_main_def make_shared_def clone_def lookup_def draw_at_def
      show_int_def show_nat.simps)

lemma Shape_copy_same: "Shape_copy s = s"
  by (cases s) simp_all

text \<open>
  C10. Let \<open>p\<close> point to a live shape \<open>s\<close>, a circle or a rectangle. Then \<open>clone\<close> returns a
  pointer \<open>q\<close> to a new object: \<open>q\<close> is not \<open>p\<close> and pointed to nothing before. The object
  at \<open>q\<close> is of the class of \<open>s\<close> with the members of \<open>s\<close>, every older object is as it was,
  and \<open>draw\<close> through \<open>q\<close> prints what \<open>draw\<close> through \<open>p\<close> prints.
\<close>

theorem clone_is_a_distinct_equal_copy:
  "lookup h p = Some s \<Longrightarrow>
     (case clone h p of
        None \<Rightarrow> False
      | Some (q, h') \<Rightarrow>
          q \<noteq> p \<and> lookup h q = None \<and> lookup h' q = Some s \<and> lookup h' p = Some s \<and>
          take (length h) h' = h \<and> length h' = Suc (length h) \<and>
          draw_at h' q = draw_at h' p \<and> draw_at h' q = Some (draw s))"
  by (auto simp: clone_def lookup_def make_shared_def draw_at_def Shape_copy_same nth_append
      split: if_splits)

theorem clone_is_a_distinct_equal_copy_witness:
  "lookup [Circle 10, Rectangle 5 8] 1 = Some (Rectangle 5 8) \<and>
   clone [Circle 10, Rectangle 5 8] 1 = Some (2, [Circle 10, Rectangle 5 8, Rectangle 5 8]) \<and>
   draw_at [Circle 10, Rectangle 5 8, Rectangle 5 8] 2
     = Some [''Drawing a Rectangle with width 5 and height 8'']"
proof -
  have h: "lookup [Circle 10, Rectangle 5 8] 1 = Some (Rectangle 5 8)"
    by (simp add: lookup_def)
  have c: "clone [Circle 10, Rectangle 5 8] 1 = Some (2, [Circle 10, Rectangle 5 8, Rectangle 5 8])"
    by (simp add: clone_def lookup_def make_shared_def)
  show ?thesis
    using clone_is_a_distinct_equal_copy [OF h] h c
    by (simp add: draw_at_def lookup_def show_int_def show_nat.simps)
qed

subsection \<open>Composite\<close>

lemma composite_main_output:
  "composite_main =
     [''Manager: General Manager'', ''Manager: Team Lead'',
      ''Developer: Alice, Position: Frontend Developer'',
      ''Developer: Bob, Position: Backend Developer'',
      ''Designer: Charlie, Position: UX Designer'']"
  by (simp add: composite_main_def addEmployee_def)

lemma foldl_addEmployee: "foldl addEmployee team es = team @ es"
  by (induction es arbitrary: team) (simp_all add: addEmployee_def)

text \<open>The lines printed are the own lines of the nodes, along the pre-order.\<close>

lemma showDetails_preorder_aux:
  "map (\<lambda>p. map_option own_line (subtree e p)) (preorder e) = map Some (showDetails e)"
  "\<forall>name front. length front = i \<longrightarrow>
     map (\<lambda>p. map_option own_line (subtree (Manager name (front @ es)) p)) (preorder_from i es)
       = map Some (concat (map showDetails es))"
proof (induction e and i es rule: preorder_preorder_from.induct)
  case (1 name position)
  show ?case by simp
next
  case (2 name position)
  show ?case by simp
next
  case (3 name team)
  from 3 have "map (\<lambda>p. map_option own_line (subtree (Manager name ([] @ team)) p))
                 (preorder_from 0 team) = map Some (concat (map showDetails team))"
    by blast
  then show ?case by simp
next
  case (4 i)
  show ?case by simp
next
  case (5 i e es)
  show ?case
  proof (intro allI impI)
    fix name and front :: "Employee list"
    assume len: "length front = i"
    have here: "map (\<lambda>p. map_option own_line (subtree (Manager name (front @ e # es)) p))
                  (map ((#) i) (preorder e)) = map Some (showDetails e)"
      using len "5.IH"(1) by (simp add: comp_def nth_append)
    have "length (front @ [e]) = Suc i" using len by simp
    with "5.IH"(2)
    have "map (\<lambda>p. map_option own_line (subtree (Manager name ((front @ [e]) @ es)) p))
            (preorder_from (Suc i) es) = map Some (concat (map showDetails es))"
      by blast
    with here
    show "map (\<lambda>p. map_option own_line (subtree (Manager name (front @ e # es)) p))
            (preorder_from i (e # es)) = map Some (concat (map showDetails (e # es)))"
      by simp
  qed
qed

text \<open>
  The pre-order lists the paths in strictly increasing lexicographic order: a path comes
  before the paths it is a prefix of (a node before its descendants), and a path through
  child \<open>i\<close> comes before a path through a later child \<open>j\<close> of the same node.
\<close>

lemma preorder_sorted_aux:
  "sorted_wrt (<) (preorder e)"
  "sorted_wrt (<) (preorder_from i es) \<and> (\<forall>p \<in> set (preorder_from i es). \<exists>j q. p = j # q \<and> i \<le> j)"
proof (induction e and i es rule: preorder_preorder_from.induct)
  case (1 name position)
  show ?case by simp
next
  case (2 name position)
  show ?case by simp
next
  case (3 name team)
  then have "\<forall>p \<in> set (preorder_from 0 team). [] < p"
    by fastforce
  with 3 show ?case by simp
next
  case (4 i)
  show ?case by simp
next
  case (5 i e es)
  have first: "sorted_wrt (<) (map ((#) i) (preorder e))"
    using "5.IH"(1) by (simp add: sorted_wrt_map)
  have cross: "\<forall>p \<in> set (map ((#) i) (preorder e)). \<forall>p' \<in> set (preorder_from (Suc i) es). p < p'"
    using "5.IH"(2) by fastforce
  have heads: "\<forall>p \<in> set (preorder_from (Suc i) es). \<exists>j q. p = j # q \<and> i \<le> j"
    using "5.IH"(2) by (meson Suc_leD)
  show ?case
    using first cross heads "5.IH"(2) by (auto simp: sorted_wrt_append)
qed

text \<open>The pre-order holds the paths of all nodes, and nothing else.\<close>

lemma preorder_complete_aux:
  "p \<in> set (preorder e) \<longleftrightarrow> subtree e p \<noteq> None"
  "p' \<in> set (preorder_from i es) \<longleftrightarrow>
     (\<exists>j q. p' = j # q \<and> i \<le> j \<and> j < i + length es \<and> subtree (es ! (j - i)) q \<noteq> None)"
proof (induction e and i es arbitrary: p and p' rule: preorder_preorder_from.induct)
  case (1 name position)
  show ?case by (cases p) simp_all
next
  case (2 name position)
  show ?case by (cases p) simp_all
next
  case (3 name team)
  show ?case
  proof (cases p)
    case Nil
    then show ?thesis by simp
  next
    case (Cons j q)
    have "p \<in> set (preorder (Manager name team)) \<longleftrightarrow> j # q \<in> set (preorder_from 0 team)"
      using Cons by simp
    also have "\<dots> \<longleftrightarrow> j < length team \<and> subtree (team ! j) q \<noteq> None"
      by (simp add: "3.IH")
    also have "\<dots> \<longleftrightarrow> subtree (Manager name team) p \<noteq> None"
      using Cons by simp
    finally show ?thesis .
  qed
next
  case (4 i)
  show ?case by simp
next
  case (5 i e es)
  show ?case
  proof (cases p')
    case Nil
    have "[] \<notin> set (preorder_from (Suc i) es)"
      by (simp add: "5.IH"(2))
    with Nil show ?thesis by auto
  next
    case (Cons j q)
    have l: "j # q \<in> set (preorder_from i (e # es)) \<longleftrightarrow>
               (j = i \<and> subtree e q \<noteq> None) \<or>
               (Suc i \<le> j \<and> j < Suc i + length es \<and> subtree (es ! (j - Suc i)) q \<noteq> None)"
    proof -
      have "j # q \<in> set (map ((#) i) (preorder e)) \<longleftrightarrow> j = i \<and> subtree e q \<noteq> None"
        using "5.IH"(1) [of q] by auto
      moreover have "j # q \<in> set (preorder_from (Suc i) es) \<longleftrightarrow>
               (Suc i \<le> j \<and> j < Suc i + length es \<and> subtree (es ! (j - Suc i)) q \<noteq> None)"
        by (simp add: "5.IH"(2))
      ultimately show ?thesis by simp
    qed
    have r: "(j = i \<and> subtree e q \<noteq> None) \<or>
               (Suc i \<le> j \<and> j < Suc i + length es \<and> subtree (es ! (j - Suc i)) q \<noteq> None)
             \<longleftrightarrow> i \<le> j \<and> j < i + length (e # es) \<and> subtree ((e # es) ! (j - i)) q \<noteq> None"
    proof (cases "j = i")
      case True
      then show ?thesis by simp
    next
      case False
      show ?thesis
      proof (cases "i < j")
        case True
        then have "(e # es) ! (j - i) = es ! (j - Suc i)"
          by (simp add: nth_Cons')
        with True show ?thesis by auto
      next
        case False
        with \<open>j \<noteq> i\<close> show ?thesis by simp
      qed
    qed
    show ?thesis
      unfolding Cons using l r by simp
  qed
qed

lemma preorder_length_aux:
  "length (preorder e) = node_count e"
  "length (preorder_from i es) = sum_list (map node_count es)"
  by (induction e and i es rule: preorder_preorder_from.induct) simp_all

text \<open>
  C4. The lines that \<open>showDetails\<close> prints on a tree are the own lines of its nodes, one
  line for every node and none twice: read along the list of all paths of the tree, which
  has no repetition and is in depth-first pre-order (strictly increasing in the
  lexicographic order on paths, so a parent comes before its children and the members of
  a team come in the order of their index). There are as many lines as nodes. The index
  of a member is its rank among the \<open>addEmployee\<close> calls, so a manager's own line is
  followed by the details of the employees in the order they were added.
\<close>

theorem showDetails_preorder_once:
  "map Some (showDetails e) = map (\<lambda>p. map_option own_line (subtree e p)) (preorder e) \<and>
   set (preorder e) = {p. subtree e p \<noteq> None} \<and>
   distinct (preorder e) \<and>
   sorted_wrt (<) (preorder e) \<and>
   length (showDetails e) = node_count e \<and>
   showDetails (Manager name (foldl addEmployee [] es))
     = (''Manager: '' @ name) # concat (map showDetails es)"
proof -
  have "length (map Some (showDetails e)) = length (preorder e)"
    by (simp add: showDetails_preorder_aux(1) [symmetric])
  then have "length (showDetails e) = node_count e"
    by (simp add: preorder_length_aux(1))
  moreover have "distinct (preorder e)"
    using preorder_sorted_aux(1) [of e] strict_sorted_iff by blast
  ultimately show ?thesis
    by (simp add: showDetails_preorder_aux(1) preorder_complete_aux(1) preorder_sorted_aux(1)
        foldl_addEmployee set_eq_iff)
qed

subsection \<open>Composite: what the order on paths says\<close>

lemma path_before_descendant: "p < p @ i # (q :: nat list)"
  by (induction p) simp_all

lemma path_before_later_sibling: "i < j \<Longrightarrow> p @ i # q < p @ j # (r :: nat list)"
  by (induction p) simp_all

subsection \<open>Decorator: the rounding\<close>

text \<open>
  The rounding function is what its description says: \<open>floor_log2\<close> is the binary
  exponent, and the rounded value lies within half a unit in the last place.
\<close>

lemma round_ties_even_aux:
  fixes f :: int and x :: rat
  assumes "of_int f \<le> x" "x < of_int f + 1"
  shows "\<bar>of_int (if x - of_int f < 1 / 2 then f
                   else if 1 / 2 < x - of_int f then f + 1
                   else if even f then f else f + 1) - x\<bar> \<le> 1 / 2"
  using assms by (auto simp: abs_if)

lemma round_ties_even_near: "\<bar>of_int (round_ties_even x) - x\<bar> \<le> 1 / 2"
proof -
  have "of_int \<lfloor>x\<rfloor> \<le> x" "x < of_int \<lfloor>x\<rfloor> + 1" by linarith+
  from round_ties_even_aux [OF this] show ?thesis
    by (simp only: round_ties_even_def Let_def)
qed

lemma powi_nat: "0 \<le> k \<Longrightarrow> (2::rat) powi k = 2 ^ nat k"
  by (simp add: power_int_def)

lemma bitlen_rat_bounds:
  assumes "0 < a"
  shows "(2::rat) powi (bitlen a - 1) \<le> of_int a \<and> of_int a < (2::rat) powi bitlen a"
proof -
  from bitlen_bounds [OF assms]
  have b: "2 ^ nat (bitlen a - 1) \<le> a" "a < 2 ^ nat (bitlen a)" by simp_all
  have pos: "1 \<le> bitlen a"
  proof (rule ccontr)
    assume "\<not> 1 \<le> bitlen a"
    then have "nat (bitlen a) = 0" by simp
    with b(2) assms show False by simp
  qed
  have "(of_int (2 ^ nat (bitlen a - 1)) :: rat) \<le> of_int a"
    using b(1) of_int_le_iff by blast
  moreover have "(of_int a :: rat) < of_int (2 ^ nat (bitlen a))"
    using b(2) of_int_less_iff by blast
  ultimately show ?thesis
    using pos by (simp add: powi_nat)
qed

lemma floor_log2_bounds:
  assumes "0 < x"
  shows "2 powi floor_log2 x \<le> x \<and> x < 2 powi (floor_log2 x + 1)"
proof -
  obtain a b where q: "quotient_of x = (a, b)" by (cases "quotient_of x")
  have bpos: "0 < b" using q quotient_of_denom_pos by blast
  have x: "x = of_int a / of_int b" using q quotient_of_div by blast
  have apos: "0 < a"
    using assms bpos unfolding x by (simp add: zero_less_divide_iff)
  let ?e = "bitlen a - bitlen b"
  from bitlen_rat_bounds [OF apos] bitlen_rat_bounds [OF bpos]
  have ab: "(2::rat) powi (bitlen a - 1) \<le> of_int a" "of_int a < (2::rat) powi bitlen a"
    "(2::rat) powi (bitlen b - 1) \<le> of_int b" "of_int b < (2::rat) powi bitlen b"
    by simp_all
  have b0: "(0::rat) < of_int b" using bpos by simp
  have a0: "(0::rat) < of_int a" using apos by simp
  have up: "x < 2 powi (?e + 1)"
  proof -
    have "x < 2 powi bitlen a / of_int b"
      unfolding x using ab(2) b0 by (simp add: divide_strict_right_mono)
    also have "\<dots> \<le> 2 powi bitlen a / 2 powi (bitlen b - 1)"
      using ab(3) by (simp add: frac_le)
    also have "\<dots> = 2 powi (bitlen a - (bitlen b - 1))"
      by (simp add: power_int_diff)
    finally show ?thesis by (simp add: algebra_simps)
  qed
  have low: "2 powi (?e - 1) < x"
  proof -
    have "(2::rat) powi (?e - 1) = 2 powi (bitlen a - 1) / 2 powi bitlen b"
      by (simp add: power_int_diff [symmetric] algebra_simps)
    also have "\<dots> < 2 powi (bitlen a - 1) / of_int b"
      using ab(4) b0 by (simp add: frac_less2)
    also have "\<dots> \<le> x"
      unfolding x using ab(1) b0 by (simp add: divide_right_mono)
    finally show ?thesis .
  qed
  show ?thesis
  proof (cases "2 powi ?e \<le> x")
    case True
    with up show ?thesis by (simp add: floor_log2_def q)
  next
    case False
    with low show ?thesis by (simp add: floor_log2_def q)
  qed
qed


lemma binary64_half_ulp:
  assumes "x \<noteq> 0"
  shows "\<bar>binary64 x - x\<bar> \<le> 2 powi (max (floor_log2 \<bar>x\<bar>) (- 1022) - 52) / 2"
proof -
  define q :: rat where "q = 2 powi (max (floor_log2 \<bar>x\<bar>) (- 1022) - 52)"
  have qpos: "0 < q" by (simp add: q_def)
  define y where "y = \<bar>x\<bar> / q"
  have b: "binary64 x = sgn x * of_int (round_ties_even y) * q"
    using assms by (simp add: binary64_def Let_def q_def y_def)
  have x: "x = sgn x * y * q"
    using qpos by (simp add: y_def sgn_mult_abs)
  have "binary64 x - x = sgn x * (of_int (round_ties_even y) - y) * q"
    by (subst b, subst (2) x) (simp add: algebra_simps)
  then have "\<bar>binary64 x - x\<bar> = \<bar>of_int (round_ties_even y) - y\<bar> * q"
    using assms qpos by (simp add: abs_mult)
  also have "\<dots> \<le> 1 / 2 * q"
    using round_ties_even_near [of y] qpos by (simp add: mult_right_mono)
  finally show ?thesis by (simp add: q_def)
qed

subsection \<open>Decorator: the cost and the description of the demo's coffee\<close>

text \<open>
  The cost of the coffee with milk, sugar and caramel is not the \<open>double\<close> that the
  literal \<open>3.4\<close> denotes, and not the number 3.4 either: a comparison of \<open>getCost()\<close> with
  \<open>3.4\<close> is false.
\<close>

theorem getCost_not_3_4_counterexample:
  "getCost myCoffee \<noteq> binary64 (34 / 10) \<and> getCost myCoffee \<noteq> 34 / 10"
  by code_simp

text \<open>
  C8, as the code has it. For plain coffee wrapped in milk, then sugar, then caramel,
  \<open>getDescription\<close> returns \<open>Plain Coffee, Milk, Sugar, Caramel\<close>, and \<open>getCost\<close> returns
  the \<open>double\<close> \<open>7656119366529844 / 2 ^ 51\<close> (3.4000000000000004 in decimal): the three
  rounded additions end one unit in the last place above the \<open>double\<close> nearest to 3.4,
  less than \<open>1 / 10 ^ 15\<close> away from 3.4.
\<close>

theorem getCost_one_ulp_above_3_4:
  "getCost myCoffee = 7656119366529844 / 2 ^ 51 \<and>
   getCost myCoffee = binary64 (34 / 10) + 1 / 2 ^ 51 \<and>
   \<bar>getCost myCoffee - 34 / 10\<bar> < 1 / 10 ^ 15 \<and>
   getDescription myCoffee = ''Plain Coffee, Milk, Sugar, Caramel''"
  by code_simp

end
